theory Spec2Isabelle
  imports Complex_Main "HOL-Library.Multiset"
begin

section \<open>Calo log analyzer: a shallow embedding of \<^verbatim>\<open>analyzer.py\<close>\<close>

text \<open>
  The development follows the methods of class \<^verbatim>\<open>CaloLogAnalyzer\<close> in the order the
  pipeline runs them: \<^verbatim>\<open>load_logs\<close>, \<^verbatim>\<open>parse_log_data\<close>, \<^verbatim>\<open>parse_all_logs\<close>,
  \<^verbatim>\<open>categorize_logs\<close>, \<^verbatim>\<open>extract_transactions\<close>, \<^verbatim>\<open>detect_overdrafts\<close>,
  \<^verbatim>\<open>analyze_user_patterns\<close>, \<^verbatim>\<open>export_results\<close> and \<^verbatim>\<open>run_complete_analysis\<close>.

  Conventions of the model.
  \<^item> A Python \<^verbatim>\<open>str\<close> is a \<^typ>\<open>string\<close>; one \<^typ>\<open>char\<close> stands for one code point
    below 256. On these code points \<^verbatim>\<open>\d\<close> is exactly \<^verbatim>\<open>0-9\<close>.
  \<^item> \<^verbatim>\<open>None\<close>, \<^verbatim>\<open>NaN\<close> and \<^verbatim>\<open>NaT\<close> in a cell are \<^term>\<open>None\<close> of an option type.
  \<^item> A Python \<^verbatim>\<open>float\<close> is an exact rational (\<^typ>\<open>rat\<close>): rounding, overflow to
    infinity and the sign of zero are not modelled.
  \<^item> A raised exception is \<^term>\<open>Inl e\<close> of a sum type; it aborts the enclosing loop
    and method.
  \<^item> A data frame built by \<^verbatim>\<open>pd.DataFrame(list_of_dicts)\<close> is the list of its rows;
    its columns are the keys of the dicts, so a frame built from the empty list has
    no column at all.
  \<^item> \<^verbatim>\<open>pd.to_datetime\<close> is library code: the conversion of one timestamp string is a
    parameter \<open>conv\<close>, which returns \<^term>\<open>None\<close> where the library rejects the string.
    A date-time value is an \<^typ>\<open>int\<close>, as the library stores a count of nanoseconds;
    only the order of the values is used.
\<close>

subsection \<open>Exceptions\<close>

datatype error =
    KeyError string
  | ValueError string
  | DateParseError string

subsection \<open>Strings\<close>

definition is_digit :: "char \<Rightarrow> bool" where
  "is_digit c = (c \<in> set ''0123456789'')"

text \<open>\<^verbatim>\<open>str.isspace\<close> on the code points below 256.\<close>

definition is_space :: "char \<Rightarrow> bool" where
  "is_space c = ((of_char c :: nat) \<in> {9, 10, 11, 12, 13, 28, 29, 30, 31, 32, 133, 160})"

text \<open>\<^verbatim>\<open>s.strip()\<close>\<close>

definition strip :: "string \<Rightarrow> string" where
  "strip s = rev (dropWhile is_space (rev (dropWhile is_space s)))"

text \<open>
  \<^verbatim>\<open>s.lower()\<close> on the code points below 256: the upper-case letters are \<^verbatim>\<open>A-Z\<close>
  (65 to 90) and 192 to 222 without 215; the lower-case letter is 32 above, which
  is the same code with bit 5 set.
\<close>

definition is_upper :: "char \<Rightarrow> bool" where
  "is_upper c =
     (let n = of_char c :: nat
      in (65 \<le> n \<and> n \<le> 90) \<or> (192 \<le> n \<and> n \<le> 222 \<and> n \<noteq> 215))"

definition lower_char :: "char \<Rightarrow> char" where
  "lower_char c =
     (if is_upper c
      then (case c of Char b0 b1 b2 b3 b4 b5 b6 b7 \<Rightarrow> Char b0 b1 b2 b3 b4 True b6 b7)
      else c)"

definition lower :: "string \<Rightarrow> string" where
  "lower s = map lower_char s"

text \<open>\<^verbatim>\<open>s.startswith(p)\<close> and the substring test \<^verbatim>\<open>p in s\<close>.\<close>

fun starts_with :: "string \<Rightarrow> string \<Rightarrow> bool" where
  "starts_with [] s = True"
| "starts_with (p # ps) [] = False"
| "starts_with (p # ps) (c # cs) = (p = c \<and> starts_with ps cs)"

fun py_in :: "string \<Rightarrow> string \<Rightarrow> bool" where
  "py_in p [] = (p = [])"
| "py_in p (c # cs) = (starts_with p (c # cs) \<or> py_in p cs)"

text \<open>\<^verbatim>\<open>s.split(d)\<close> for a one-character separator: never the empty list.\<close>

fun split_on :: "char \<Rightarrow> string \<Rightarrow> string list" where
  "split_on d [] = [[]]"
| "split_on d (c # cs) =
     (if c = d then [] # split_on d cs
      else (case split_on d cs of
              [] \<Rightarrow> [[c]]
            | w # ws \<Rightarrow> (c # w) # ws))"

definition tab :: char where
  "tab = CHR 0x09"

subsection \<open>Regular expressions of the source, as matchers\<close>

text \<open>
  A matcher reads a prefix of its input and returns the rest, or \<^term>\<open>None\<close>.
  \<^verbatim>\<open>\d{n}\<close> is \<open>digits_n n\<close>, a literal character is \<open>chr_lit\<close>, and a greedy
  \<^verbatim>\<open>[...]+\<close> is \<open>class_plus\<close>: it takes the longest run of characters of the class,
  which has to be non-empty. Where the next item of the pattern is a character
  outside the class (or the pattern ends), backtracking into the run cannot help, so
  the longest run is the only candidate.
\<close>

fun digits_n :: "nat \<Rightarrow> string \<Rightarrow> string option" where
  "digits_n 0 s = Some s"
| "digits_n (Suc n) [] = None"
| "digits_n (Suc n) (c # cs) = (if is_digit c then digits_n n cs else None)"

definition chr_lit :: "char \<Rightarrow> string \<Rightarrow> string option" where
  "chr_lit c s = (case s of [] \<Rightarrow> None | x # xs \<Rightarrow> if x = c then Some xs else None)"

definition class_plus :: "(char \<Rightarrow> bool) \<Rightarrow> string \<Rightarrow> string option" where
  "class_plus P s = (if takeWhile P s = [] then None else Some (dropWhile P s))"

text \<open>
  \<^verbatim>\<open>re.match(r"^(\d{4}-\d{2}-\d{2}T\d{2}:\d{2}:\d{2}\.\d+Z)", s)\<close>: the rest of the
  input after the match at position 0.
\<close>

definition timestamp_rest :: "string \<Rightarrow> string option" where
  "timestamp_rest s =
     Option.bind (digits_n 4 s) (\<lambda>s.
     Option.bind (chr_lit (CHR ''-'') s) (\<lambda>s.
     Option.bind (digits_n 2 s) (\<lambda>s.
     Option.bind (chr_lit (CHR ''-'') s) (\<lambda>s.
     Option.bind (digits_n 2 s) (\<lambda>s.
     Option.bind (chr_lit (CHR ''T'') s) (\<lambda>s.
     Option.bind (digits_n 2 s) (\<lambda>s.
     Option.bind (chr_lit (CHR '':'') s) (\<lambda>s.
     Option.bind (digits_n 2 s) (\<lambda>s.
     Option.bind (chr_lit (CHR '':'') s) (\<lambda>s.
     Option.bind (digits_n 2 s) (\<lambda>s.
     Option.bind (chr_lit (CHR ''.'') s) (\<lambda>s.
     Option.bind (class_plus is_digit s) (\<lambda>s.
     chr_lit (CHR ''Z'') s)))))))))))))"

text \<open>\<^verbatim>\<open>timestamp_match.group(1) if timestamp_match else None\<close>\<close>

definition timestamp_match :: "string \<Rightarrow> string option" where
  "timestamp_match s =
     (case timestamp_rest s of
        None \<Rightarrow> None
      | Some r \<Rightarrow> Some (take (length s - length r) s))"

text \<open>
  \<^verbatim>\<open>re.search(pattern, msg)\<close>: the match at the leftmost position that has one,
  the end of the string included.
\<close>

fun re_search :: "(string \<Rightarrow> 'a option) \<Rightarrow> string \<Rightarrow> 'a option" where
  "re_search m [] = m []"
| "re_search m (c # cs) =
     (case m (c # cs) of
        Some r \<Rightarrow> Some r
      | None \<Rightarrow> re_search m cs)"

subsection \<open>\<^verbatim>\<open>load_logs\<close>\<close>

text \<open>
  Of the lines read from the archives, those that contain \<^verbatim>\<open>INFO\<close> are kept,
  stripped. The argument is the sequence of lines of all files.
\<close>

definition load_logs :: "string list \<Rightarrow> string list" where
  "load_logs lines = map strip (filter (py_in ''INFO'') lines)"

subsection \<open>\<^verbatim>\<open>parse_log_data\<close>\<close>

record log_record =
  timestamp :: "string option"
  session_id :: "string option"
  message_type :: "string option"
  message :: "string option"

text \<open>\<^verbatim>\<open>xs[i] if len(xs) > i else None\<close>\<close>

definition segment :: "string list \<Rightarrow> nat \<Rightarrow> string option" where
  "segment xs i = (if length xs > i then Some (xs ! i) else None)"

text \<open>
  The argument is \<^term>\<open>None\<close> where \<^verbatim>\<open>pd.isna(string_data)\<close> holds, and the string
  otherwise.
\<close>

definition parse_log_data :: "string option \<Rightarrow> log_record option" where
  "parse_log_data string_data =
     (case string_data of
        None \<Rightarrow> None
      | Some s \<Rightarrow>
          (let log_data = strip s;
               log_data_list = split_on tab log_data
           in Some \<lparr> timestamp = timestamp_match log_data,
                     session_id = segment log_data_list 1,
                     message_type = segment log_data_list 2,
                     message = segment log_data_list 3 \<rparr>))"

subsection \<open>\<^verbatim>\<open>parse_all_logs\<close>\<close>

record parsed_log = log_record +
  datetime :: "int option"

text \<open>
  \<^verbatim>\<open>pd.to_datetime(column)\<close> with the default \<^verbatim>\<open>errors="raise"\<close>: a null cell gives
  \<^verbatim>\<open>NaT\<close>, a string the library cannot convert raises.
\<close>

fun to_datetime :: "(string \<Rightarrow> int option) \<Rightarrow> string option list \<Rightarrow> error + int option list" where
  "to_datetime conv [] = Inr []"
| "to_datetime conv (None # xs) =
     (case to_datetime conv xs of
        Inl e \<Rightarrow> Inl e
      | Inr ds \<Rightarrow> Inr (None # ds))"
| "to_datetime conv (Some s # xs) =
     (case conv s of
        None \<Rightarrow> Inl (DateParseError s)
      | Some d \<Rightarrow>
          (case to_datetime conv xs of
             Inl e \<Rightarrow> Inl e
           | Inr ds \<Rightarrow> Inr (Some d # ds)))"

text \<open>The loop over \<^verbatim>\<open>self.raw_logs.iterrows()\<close>: every row holds a string.\<close>

definition parsed_data :: "string list \<Rightarrow> log_record list" where
  "parsed_data raw_logs = List.map_filter (\<lambda>l. parse_log_data (Some l)) raw_logs"

definition with_datetime :: "log_record \<Rightarrow> int option \<Rightarrow> parsed_log" where
  "with_datetime r d = log_record.extend r \<lparr> datetime = d \<rparr>"

text \<open>
  \<^verbatim>\<open>pd.DataFrame(parsed_data)\<close> has no column when \<^verbatim>\<open>parsed_data\<close> is empty, so
  \<^verbatim>\<open>self.parsed_logs["timestamp"]\<close> raises \<^verbatim>\<open>KeyError\<close> there.
\<close>

definition parse_all_logs :: "(string \<Rightarrow> int option) \<Rightarrow> string list \<Rightarrow> error + parsed_log list" where
  "parse_all_logs conv raw_logs =
     (let rows = parsed_data raw_logs
      in if rows = [] then Inl (KeyError ''timestamp'')
         else (case to_datetime conv (map timestamp rows) of
                 Inl e \<Rightarrow> Inl e
               | Inr ds \<Rightarrow> Inr (map2 with_datetime rows ds)))"

subsection \<open>\<^verbatim>\<open>categorize_logs\<close>\<close>

text \<open>The argument is \<^term>\<open>None\<close> where \<^verbatim>\<open>pd.isna(msg)\<close> holds.\<close>

definition categorize_message :: "string option \<Rightarrow> string" where
  "categorize_message msg =
     (case msg of
        None \<Rightarrow> ''other''
      | Some m \<Rightarrow>
          (let msg_lower = lower m
           in if py_in ''processing message'' msg_lower then ''processing_message''
              else if py_in ''start syncing the balance'' msg_lower then ''balance_sync_start''
              else if py_in ''balance is already synced'' msg_lower then ''balance_already_synced''
              else if py_in ''skipping the balance sync'' msg_lower then ''balance_sync_skip''
              else if py_in ''transaction {'' msg_lower then ''transaction''
              else if py_in ''sending slack notification'' msg_lower then ''slack_notification''
              else if py_in ''error'' msg_lower \<or> py_in ''failed'' msg_lower then ''error''
              else if py_in ''overdraft'' msg_lower then ''overdraft''
              else ''other''))"

record categorized_log = parsed_log +
  message_category :: string

definition with_category :: "parsed_log \<Rightarrow> categorized_log" where
  "with_category r = parsed_log.extend r \<lparr> message_category = categorize_message (message r) \<rparr>"

text \<open>
  \<^verbatim>\<open>series.unique()\<close>: the distinct values in the order of their first appearance.
\<close>

fun unique :: "'a list \<Rightarrow> 'a list" where
  "unique [] = []"
| "unique (x # xs) = x # filter (\<lambda>y. y \<noteq> x) (unique xs)"

text \<open>\<^verbatim>\<open>series.nunique()\<close>: the number of distinct non-null values.\<close>

definition nunique :: "'a option list \<Rightarrow> nat" where
  "nunique xs = length (unique (List.map_filter (\<lambda>x. x) xs))"

text \<open>
  \<^verbatim>\<open>series.value_counts()\<close>: one entry per distinct value with the number of its
  occurrences, by descending count. The library leaves the order of entries with equal
  counts open; the model keeps them in the order of first appearance, and nothing below
  depends on it.
\<close>

definition value_counts :: "string list \<Rightarrow> (string \<times> nat) list" where
  "value_counts xs =
     sort_key (\<lambda>(c, n). - int n) (map (\<lambda>c. (c, count_list xs c)) (unique xs))"

text \<open>
  The categorized frame and \<^verbatim>\<open>analysis_results["category_stats"]\<close>. The percentages
  of this method are only printed.
\<close>

definition categorize_logs :: "parsed_log list \<Rightarrow> categorized_log list \<times> (string \<times> nat) list" where
  "categorize_logs parsed_logs =
     (let logs = map with_category parsed_logs
      in (logs, value_counts (map message_category logs)))"

subsection \<open>\<^verbatim>\<open>extract_transactions\<close>\<close>

record transaction =
  timestamp_tx :: "string option"
  datetime_tx :: "int option"
  session_id_tx :: "string option"
  id_tx :: "string option"
  type_tx :: "string option"
  source :: "string option"
  action :: "string option"
  amount :: "rat option"
  vat :: "rat option"
  userBalance :: "rat option"
  userId :: "string option"

text \<open>The columns of a frame built from a list of these rows.\<close>

definition transaction_columns :: "string list" where
  "transaction_columns =
     [''timestamp'', ''datetime'', ''session_id'', ''id'', ''type'', ''source'', ''action'',
      ''amount'', ''vat'', ''userBalance'', ''userId'']"

definition df_columns :: "transaction list \<Rightarrow> string list" where
  "df_columns rows = (if rows = [] then [] else transaction_columns)"

text \<open>\<^verbatim>\<open>df.empty\<close>: no row or no column.\<close>

definition df_empty :: "transaction list \<Rightarrow> bool" where
  "df_empty rows = (rows = [] \<or> df_columns rows = [])"

definition dquote :: char where
  "dquote = CHR 0x22"

definition str_lit :: "string \<Rightarrow> string \<Rightarrow> string option" where
  "str_lit p s = (if starts_with p s then Some (drop (length p) s) else None)"

text \<open>
  The pattern \<^verbatim>\<open>"key":"([^"]+)"\<close> at one position: the captured group. The argument
  \<open>key\<close> is the literal up to and including the opening quote of the value.
\<close>

definition quoted_pattern :: "string \<Rightarrow> string \<Rightarrow> string option" where
  "quoted_pattern key s =
     Option.bind (str_lit key s) (\<lambda>r.
     Option.bind (class_plus (\<lambda>c. c \<noteq> dquote) r) (\<lambda>r'.
     Option.bind (chr_lit dquote r') (\<lambda>_.
     Some (takeWhile (\<lambda>c. c \<noteq> dquote) r))))"

text \<open>
  The patterns \<^verbatim>\<open>"key":([\d.]+)\<close> and \<^verbatim>\<open>"key":([\d.-]+)\<close> at one position: the
  captured group, for the character class \<open>cls\<close>.
\<close>

definition numeric_pattern :: "string \<Rightarrow> (char \<Rightarrow> bool) \<Rightarrow> string \<Rightarrow> string option" where
  "numeric_pattern key cls s =
     Option.bind (str_lit key s) (\<lambda>r.
     Option.bind (class_plus cls r) (\<lambda>_.
     Some (takeWhile cls r)))"

definition digit_dot :: "char \<Rightarrow> bool" where
  "digit_dot c = (is_digit c \<or> c = CHR ''.'')"

definition digit_dot_minus :: "char \<Rightarrow> bool" where
  "digit_dot_minus c = (is_digit c \<or> c = CHR ''.'' \<or> c = CHR ''-'')"

definition key_lit :: "string \<Rightarrow> string" where
  "key_lit k = [dquote] @ k @ [dquote] @ '':''"

definition quoted_key :: "string \<Rightarrow> string" where
  "quoted_key k = key_lit k @ [dquote]"

text \<open>
  \<^verbatim>\<open>float(s)\<close> for a string of digits, dots and minus signs, which is all the two
  numeric classes can capture: an optional sign, then digits with at most one dot
  and at least one digit. Anything else raises \<^verbatim>\<open>ValueError\<close>.
\<close>

definition digit_val :: "char \<Rightarrow> nat" where
  "digit_val c = of_char c - 48"

definition nat_of_digits :: "string \<Rightarrow> nat" where
  "nat_of_digits ds = foldl (\<lambda>a c. 10 * a + digit_val c) 0 ds"

definition decimal :: "string \<Rightarrow> string \<Rightarrow> rat" where
  "decimal ip fp = of_nat (nat_of_digits (ip @ fp)) / 10 ^ length fp"

definition unsigned_float :: "string \<Rightarrow> rat option" where
  "unsigned_float s =
     (let ip = takeWhile is_digit s
      in (case dropWhile is_digit s of
            [] \<Rightarrow> if ip = [] then None else Some (decimal ip [])
          | c # fp \<Rightarrow>
              if c = CHR ''.'' \<and> list_all is_digit fp \<and> (ip \<noteq> [] \<or> fp \<noteq> [])
              then Some (decimal ip fp) else None))"

definition py_float :: "string \<Rightarrow> error + rat" where
  "py_float s =
     (let r = (case s of
                 [] \<Rightarrow> None
               | c # cs \<Rightarrow>
                   if c = CHR ''-'' then map_option uminus (unsigned_float cs)
                   else unsigned_float s)
      in (case r of None \<Rightarrow> Inl (ValueError s) | Some v \<Rightarrow> Inr v))"

text \<open>
  \<^verbatim>\<open>float(match.group(1)) if match else None\<close>
\<close>

definition float_field :: "string option \<Rightarrow> error + rat option" where
  "float_field m =
     (case m of
        None \<Rightarrow> Inr None
      | Some g \<Rightarrow> (case py_float g of Inl e \<Rightarrow> Inl e | Inr v \<Rightarrow> Inr (Some v)))"

text \<open>
  The body of the loop up to the test: the dict \<^verbatim>\<open>tx_data\<close> of one row. The patterns
  are tried in the order of the dict \<^verbatim>\<open>patterns\<close>; only the three numeric ones can
  raise, in the order \<^verbatim>\<open>amount\<close>, \<^verbatim>\<open>vat\<close>, \<^verbatim>\<open>userBalance\<close>.
  \<^verbatim>\<open>str(log["message"])\<close> of a null message is the string \<^verbatim>\<open>None\<close>.
\<close>

definition tx_data :: "categorized_log \<Rightarrow> error + transaction" where
  "tx_data row =
     (let msg = (case message row of None \<Rightarrow> ''None'' | Some m \<Rightarrow> m)
      in (case float_field (re_search (numeric_pattern (key_lit ''amount'') digit_dot) msg) of
            Inl e \<Rightarrow> Inl e
          | Inr a \<Rightarrow>
         (case float_field (re_search (numeric_pattern (key_lit ''vat'') digit_dot) msg) of
            Inl e \<Rightarrow> Inl e
          | Inr v \<Rightarrow>
         (case float_field
                 (re_search (numeric_pattern (key_lit ''userBalance'') digit_dot_minus) msg) of
            Inl e \<Rightarrow> Inl e
          | Inr b \<Rightarrow>
              Inr \<lparr> timestamp_tx = timestamp row,
                    datetime_tx = datetime row,
                    session_id_tx = session_id row,
                    id_tx = re_search (quoted_pattern (quoted_key ''id'')) msg,
                    type_tx = re_search (quoted_pattern (quoted_key ''type'')) msg,
                    source = re_search (quoted_pattern (quoted_key ''source'')) msg,
                    action = re_search (quoted_pattern (quoted_key ''action'')) msg,
                    amount = a,
                    vat = v,
                    userBalance = b,
                    userId = re_search (quoted_pattern (quoted_key ''userId'')) msg \<rparr>))))"

text \<open>\<^verbatim>\<open>tx_data.get("id") and tx_data.get("amount") is not None\<close>\<close>

definition truthy :: "string option \<Rightarrow> bool" where
  "truthy x = (case x of None \<Rightarrow> False | Some s \<Rightarrow> s \<noteq> [])"

definition retained :: "transaction \<Rightarrow> bool" where
  "retained tx = (truthy (id_tx tx) \<and> amount tx \<noteq> None)"

text \<open>The loop over the rows of \<^verbatim>\<open>transaction_logs\<close>.\<close>

fun transactions_data :: "categorized_log list \<Rightarrow> error + transaction list" where
  "transactions_data [] = Inr []"
| "transactions_data (row # logs) =
     (case tx_data row of
        Inl e \<Rightarrow> Inl e
      | Inr tx \<Rightarrow>
          (case transactions_data logs of
             Inl e \<Rightarrow> Inl e
           | Inr txs \<Rightarrow> Inr (if retained tx then tx # txs else txs)))"

record transaction_stats =
  total_count :: nat
  credit_count_ts :: nat
  debit_count_ts :: nat
  total_credits_ts :: rat
  total_debits_ts :: rat
  unique_users :: nat
  unique_sessions :: nat

text \<open>\<^verbatim>\<open>series.sum()\<close> skips null cells.\<close>

definition sum_skipna :: "rat option list \<Rightarrow> rat" where
  "sum_skipna xs = sum_list (List.map_filter (\<lambda>x. x) xs)"

definition of_type :: "string \<Rightarrow> transaction list \<Rightarrow> transaction list" where
  "of_type ty txs = filter (\<lambda>t. type_tx t = Some ty) txs"

definition transaction_statistics :: "transaction list \<Rightarrow> transaction_stats" where
  "transaction_statistics txs =
     (if \<not> df_empty txs
      then (let credit_txs = of_type ''CREDIT'' txs;
                debit_txs = of_type ''DEBIT'' txs
            in \<lparr> total_count = length txs,
                 credit_count_ts = length credit_txs,
                 debit_count_ts = length debit_txs,
                 total_credits_ts =
                   (if \<not> df_empty credit_txs then sum_skipna (map amount credit_txs) else 0),
                 total_debits_ts =
                   (if \<not> df_empty debit_txs then sum_skipna (map amount debit_txs) else 0),
                 unique_users = nunique (map userId txs),
                 unique_sessions = nunique (map session_id_tx txs) \<rparr>)
      else \<lparr> total_count = 0, credit_count_ts = 0, debit_count_ts = 0,
             total_credits_ts = 0, total_debits_ts = 0,
             unique_users = 0, unique_sessions = 0 \<rparr>)"

definition is_transaction :: "categorized_log \<Rightarrow> bool" where
  "is_transaction row = (message_category row = ''transaction'')"

definition extract_transactions ::
  "categorized_log list \<Rightarrow> error + transaction list \<times> transaction_stats" where
  "extract_transactions logs =
     (case transactions_data (filter is_transaction logs) of
        Inl e \<Rightarrow> Inl e
      | Inr txs \<Rightarrow> Inr (txs, transaction_statistics txs))"

subsection \<open>\<^verbatim>\<open>detect_overdrafts\<close>\<close>

text \<open>
  A comparison of a column with a number is false at a null cell.
\<close>

definition lt_cell :: "rat option \<Rightarrow> rat \<Rightarrow> bool" where
  "lt_cell x y = (case x of None \<Rightarrow> False | Some v \<Rightarrow> v < y)"

definition ge_cell :: "rat option \<Rightarrow> rat \<Rightarrow> bool" where
  "ge_cell x y = (case x of None \<Rightarrow> False | Some v \<Rightarrow> v \<ge> y)"

definition negative_balance :: "transaction \<Rightarrow> bool" where
  "negative_balance t = lt_cell (userBalance t) 0"

definition low_balance :: "transaction \<Rightarrow> bool" where
  "low_balance t = (ge_cell (userBalance t) 0 \<and> lt_cell (userBalance t) 10)"

record overdraft_stats =
  negative_balance_count :: nat
  low_balance_count :: nat
  at_risk_users :: nat

text \<open>
  The result is the returned frame \<^verbatim>\<open>pd.DataFrame(overdrafts)\<close> and the entry
  \<^verbatim>\<open>analysis_results["overdraft_stats"]\<close>.
\<close>

definition detect_overdrafts :: "transaction list \<Rightarrow> transaction list \<times> overdraft_stats" where
  "detect_overdrafts txs =
     (if \<not> df_empty txs \<and> ''userBalance'' \<in> set (df_columns txs)
      then (let negative_balances = filter negative_balance txs;
                overdrafts = (if \<not> df_empty negative_balances then negative_balances else []);
                low_balances = filter low_balance txs
            in (overdrafts,
                \<lparr> negative_balance_count = length negative_balances,
                  low_balance_count = length low_balances,
                  at_risk_users =
                    (if \<not> df_empty low_balances then nunique (map userId low_balances)
                     else 0) \<rparr>))
      else ([], \<lparr> negative_balance_count = 0, low_balance_count = 0, at_risk_users = 0 \<rparr>))"

subsection \<open>\<^verbatim>\<open>analyze_user_patterns\<close>\<close>

text \<open>
  \<^verbatim>\<open>frame.sort_values("datetime")\<close> with the defaults \<^verbatim>\<open>ascending=True\<close> and
  \<^verbatim>\<open>na_position="last"\<close>: the rows with a date-time, ascending, and after them the
  rows without one, in the order they had. The library's default sort leaves the
  order of rows with equal date-times open; the model keeps their original order.
\<close>

definition has_datetime :: "transaction \<Rightarrow> bool" where
  "has_datetime t = (datetime_tx t \<noteq> None)"

definition sort_values :: "transaction list \<Rightarrow> transaction list" where
  "sort_values rows =
     sort_key (\<lambda>t. the (datetime_tx t)) (filter has_datetime rows)
     @ filter (\<lambda>t. \<not> has_datetime t) rows"

text \<open>\<^verbatim>\<open>series.min()\<close> and \<^verbatim>\<open>series.max()\<close> skip null cells and are null without any other.\<close>

fun nanmin :: "rat option list \<Rightarrow> rat option" where
  "nanmin [] = None"
| "nanmin (None # xs) = nanmin xs"
| "nanmin (Some v # xs) = (case nanmin xs of None \<Rightarrow> Some v | Some m \<Rightarrow> Some (min v m))"

fun nanmax :: "rat option list \<Rightarrow> rat option" where
  "nanmax [] = None"
| "nanmax (None # xs) = nanmax xs"
| "nanmax (Some v # xs) = (case nanmax xs of None \<Rightarrow> Some v | Some m \<Rightarrow> Some (max v m))"

record user_stats =
  user_id :: string
  transaction_count :: nat
  credit_count :: nat
  debit_count :: nat
  total_credits :: rat
  total_debits :: rat
  min_balance :: "rat option"
  max_balance :: "rat option"
  current_balance :: "rat option"
  first_transaction :: "string option"
  last_transaction :: "string option"
  overdraft_flag :: bool

text \<open>The rows of one user, sorted.\<close>

definition user_txs :: "transaction list \<Rightarrow> string \<Rightarrow> transaction list" where
  "user_txs txs uid = sort_values (filter (\<lambda>t. userId t = Some uid) txs)"

text \<open>
  The body of the loop for one non-null \<^verbatim>\<open>user_id\<close>: the row appended to
  \<^verbatim>\<open>user_analysis\<close>, if any. \<^verbatim>\<open>iloc[0]\<close> and \<^verbatim>\<open>iloc[-1]\<close> are read under the guard
  \<^verbatim>\<open>not user_txs.empty\<close>.
\<close>

definition user_row :: "transaction list \<Rightarrow> string \<Rightarrow> user_stats option" where
  "user_row txs uid =
     (let rows = user_txs txs uid;
          has_balance = (''userBalance'' \<in> set (df_columns rows))
      in if \<not> df_empty rows
         then (let mn = (if has_balance then nanmin (map userBalance rows) else None)
               in Some \<lparr> user_id = uid,
                         transaction_count = length rows,
                         credit_count = length (of_type ''CREDIT'' rows),
                         debit_count = length (of_type ''DEBIT'' rows),
                         total_credits = sum_skipna (map amount (of_type ''CREDIT'' rows)),
                         total_debits = sum_skipna (map amount (of_type ''DEBIT'' rows)),
                         min_balance = mn,
                         max_balance =
                           (if has_balance then nanmax (map userBalance rows) else None),
                         current_balance =
                           (if has_balance then userBalance (last rows) else None),
                         first_transaction = timestamp_tx (hd rows),
                         last_transaction = timestamp_tx (last rows),
                         overdraft_flag = (mn \<noteq> None \<and> lt_cell mn 0) \<rparr>)
         else None)"

definition analyze_user_patterns :: "transaction list \<Rightarrow> user_stats list" where
  "analyze_user_patterns txs =
     (if \<not> df_empty txs
      then List.map_filter (user_row txs) (List.map_filter (\<lambda>u. u) (unique (map userId txs)))
      else [])"

subsection \<open>\<^verbatim>\<open>export_results\<close>\<close>

text \<open>
  The column \<^verbatim>\<open>Percentage\<close>: \<^verbatim>\<open>Count / Count.sum() * 100\<close>, row by row.
\<close>

definition count_sum :: "(string \<times> nat) list \<Rightarrow> nat" where
  "count_sum stats = sum_list (map snd stats)"

definition percentage :: "(string \<times> nat) list \<Rightarrow> nat \<Rightarrow> rat" where
  "percentage stats n = of_nat n / of_nat (count_sum stats) * 100"

definition category_table :: "(string \<times> nat) list \<Rightarrow> (string \<times> nat \<times> rat) list" where
  "category_table stats = map (\<lambda>(c, n). (c, n, percentage stats n)) stats"

text \<open>
  The four tables of the export; a table that is not written is \<^term>\<open>None\<close>.
\<close>

record report =
  transactions_csv :: "transaction list option"
  user_analysis_csv :: "user_stats list option"
  category_stats_csv :: "(string \<times> nat \<times> rat) list"
  overdrafts_csv :: "transaction list option"

definition export_results :: "transaction list \<Rightarrow> (string \<times> nat) list \<Rightarrow> report" where
  "export_results txs category_stats =
     (let user_analysis = analyze_user_patterns txs;
          overdrafts = fst (detect_overdrafts txs)
      in \<lparr> transactions_csv = (if \<not> df_empty txs then Some txs else None),
           user_analysis_csv = (if user_analysis \<noteq> [] then Some user_analysis else None),
           category_stats_csv = category_table category_stats,
           overdrafts_csv = (if \<not> df_empty overdrafts then Some overdrafts else None) \<rparr>)"

subsection \<open>\<^verbatim>\<open>run_complete_analysis\<close>\<close>

record analysis_results =
  category_stats :: "(string \<times> nat) list"
  transaction_stats :: transaction_stats
  overdraft_stats :: overdraft_stats

text \<open>
  The argument \<open>lines\<close> is the sequence of lines of the archives. An exception of
  any step ends the run; \<^verbatim>\<open>main\<close> prints it.
\<close>

definition run_complete_analysis ::
  "(string \<Rightarrow> int option) \<Rightarrow> string list \<Rightarrow> error + analysis_results \<times> report" where
  "run_complete_analysis conv lines =
     (case parse_all_logs conv (load_logs lines) of
        Inl e \<Rightarrow> Inl e
      | Inr parsed_logs \<Rightarrow>
          (let (logs, cstats) = categorize_logs parsed_logs
           in (case extract_transactions logs of
                 Inl e \<Rightarrow> Inl e
               | Inr (txs, tstats) \<Rightarrow>
                   Inr (\<lparr> category_stats = cstats,
                          transaction_stats = tstats,
                          overdraft_stats = snd (detect_overdrafts txs) \<rparr>,
                        export_results txs cstats))))"

subsection \<open>The categorizer as an ordered rule list\<close>

text \<open>
  The taxonomy as the specification words it: an ordered list of rules, each a list
  of alternative keywords and a label; the first rule with a keyword inside the
  lower-cased message gives the label, and \<^verbatim>\<open>other\<close> is the default.
\<close>

definition category_rules :: "(string list \<times> string) list" where
  "category_rules =
     [([''processing message''], ''processing_message''),
      ([''start syncing the balance''], ''balance_sync_start''),
      ([''balance is already synced''], ''balance_already_synced''),
      ([''skipping the balance sync''], ''balance_sync_skip''),
      ([''transaction {''], ''transaction''),
      ([''sending slack notification''], ''slack_notification''),
      ([''error'', ''failed''], ''error''),
      ([''overdraft''], ''overdraft'')]"

fun first_match :: "(string list \<times> string) list \<Rightarrow> string \<Rightarrow> string" where
  "first_match [] m = ''other''"
| "first_match ((ks, l) # rs) m =
     (if list_ex (\<lambda>k. py_in k m) ks then l else first_match rs m)"

definition category_labels :: "string list" where
  "category_labels = map snd category_rules @ [''other'']"

subsection \<open>The timestamp pattern, read declaratively\<close>

text \<open>
  The strings the pattern of \<^verbatim>\<open>parse_log_data\<close> describes: four digits, a dash, two
  digits, a dash, two digits, \<^verbatim>\<open>T\<close>, three groups of two digits separated by colons, a
  dot, one or more digits and \<^verbatim>\<open>Z\<close>.
\<close>

definition timestamp_shape :: "string \<Rightarrow> bool" where
  "timestamp_shape t =
     (\<exists>Y M D h m s f.
        t = Y @ ''-'' @ M @ ''-'' @ D @ ''T'' @ h @ '':'' @ m @ '':'' @ s @ ''.'' @ f @ ''Z''
        \<and> length Y = 4 \<and> length M = 2 \<and> length D = 2
        \<and> length h = 2 \<and> length m = 2 \<and> length s = 2 \<and> f \<noteq> []
        \<and> list_all is_digit (Y @ M @ D @ h @ m @ s @ f))"

subsection \<open>Example data\<close>

text \<open>A categorized row that carries only a message.\<close>

definition row_of_message :: "string \<Rightarrow> categorized_log" where
  "row_of_message m =
     with_category
       (with_datetime
          \<lparr> timestamp = None, session_id = None, message_type = None, message = Some m \<rparr>
          None)"

definition bad_amount_message :: string where
  \<open>bad_amount_message = ''Transaction {"id":"tx1","amount":.}''\<close>

definition bad_balance_message :: string where
  \<open>bad_balance_message = ''Transaction {"id":"tx1","amount":5,"userBalance":--}''\<close>

text \<open>A row of the transaction table for the examples.\<close>

definition example_tx ::
  "string \<Rightarrow> string option \<Rightarrow> int option \<Rightarrow> rat option \<Rightarrow> transaction" where
  "example_tx uid ts dt bal =
     \<lparr> timestamp_tx = ts, datetime_tx = dt, session_id_tx = Some ''sess-1'',
       id_tx = Some ''tx1'', type_tx = Some ''CREDIT'', source = None, action = None,
       amount = Some 50, vat = None, userBalance = bal, userId = Some uid \<rparr>"

definition undated_tx :: transaction where
  "undated_tx = example_tx ''u1'' None None (Some 7)"

definition dated_tx :: transaction where
  "dated_tx = example_tx ''u1'' (Some ''2024-01-01T10:00:00.123Z'') (Some 100) (Some (-5))"






definition balance_table :: "transaction list" where
  "balance_table =
     [example_tx ''u1'' None (Some 1) (Some (-5)),
      example_tx ''u2'' None (Some 2) (Some 3),
      example_tx ''u2'' None (Some 3) None,
      example_tx ''u3'' None (Some 4) (Some 50)]"

definition message_rows :: "parsed_log list" where
  "message_rows =
     map (\<lambda>m. with_datetime
                 \<lparr> timestamp = None, session_id = None, message_type = None, message = m \<rparr> None)
       [Some ''Processing message'', Some ''an error'', None]"

text \<open>
  An example of a conversion, to instantiate the parameter: it rejects a timestamp with
  a calendar or clock field out of range and orders the others by their fields down to
  the second.
\<close>

definition field :: "string \<Rightarrow> nat \<Rightarrow> nat \<Rightarrow> nat" where
  "field ts i n = nat_of_digits (take n (drop i ts))"

definition example_conv :: "string \<Rightarrow> int option" where
  "example_conv ts =
     (let month = field ts 5 2; day = field ts 8 2; hour = field ts 11 2;
          minute = field ts 14 2; second = field ts 17 2
      in if 1 \<le> month \<and> month \<le> 12 \<and> 1 \<le> day \<and> day \<le> 31
            \<and> hour < 24 \<and> minute < 60 \<and> second < 60
         then Some (int (nat_of_digits (filter is_digit (take 19 ts))))
         else None)"

definition month13_line :: string where
  "month13_line = ''2024-13-01T10:00:00.123Z'' @ [tab] @ ''s1'' @ [tab] @ ''INFO'' @ [tab] @ ''m''"

definition good_line :: string where
  "good_line = ''2024-01-01T10:00:00.123Z'' @ [tab] @ ''s1'' @ [tab] @ ''INFO'' @ [tab] @ ''m''"

definition unanchored_line :: string where
  "unanchored_line = ''INFO at 2024-01-01T10:00:00.123Z''"

section \<open>Properties\<close>

subsection \<open>Evaluation rules\<close>

lemmas string_eval =
  lower_def lower_char_def is_upper_def is_digit_def is_space_def strip_def tab_def
  dquote_def key_lit_def quoted_key_def str_lit_def class_plus_def chr_lit_def
  numeric_pattern_def quoted_pattern_def digit_dot_def digit_dot_minus_def
  py_float_def unsigned_float_def float_field_def decimal_def nat_of_digits_def
  digit_val_def

lemmas row_eval =
  row_of_message_def with_category_def with_datetime_def parsed_log.extend_def
  log_record.extend_def is_transaction_def

subsection \<open>Substrings\<close>

lemma starts_with_iff: "starts_with p s \<longleftrightarrow> (\<exists>b. s = p @ b)"
  by (induction p s rule: starts_with.induct) auto

lemma py_in_iff: "py_in p s \<longleftrightarrow> (\<exists>a b. s = a @ p @ b)"
proof (induction s)
  case Nil
  then show ?case by auto
next
  case (Cons c cs)
  show ?case
  proof
    assume "py_in p (c # cs)"
    then consider "starts_with p (c # cs)" | "py_in p cs" by auto
    then show "\<exists>a b. c # cs = a @ p @ b"
    proof cases
      case 1
      then obtain b where "c # cs = p @ b" by (auto simp: starts_with_iff)
      then have "c # cs = [] @ p @ b" by simp
      then show ?thesis by blast
    next
      case 2
      then obtain a b where "cs = a @ p @ b" using Cons.IH by auto
      then have "c # cs = (c # a) @ p @ b" by simp
      then show ?thesis by blast
    qed
  next
    assume "\<exists>a b. c # cs = a @ p @ b"
    then obtain a b where ab: "c # cs = a @ p @ b" by auto
    show "py_in p (c # cs)"
    proof (cases a)
      case Nil
      then have "starts_with p (c # cs)" using ab by (auto simp: starts_with_iff)
      then show ?thesis by simp
    next
      case (Cons x a')
      then have "cs = a' @ p @ b" using ab by simp
      then have "py_in p cs" using Cons.IH by blast
      then show ?thesis by simp
    qed
  qed
qed

subsection \<open>The categorizer\<close>

lemma first_match_label: "first_match rs s \<in> set (map snd rs @ [''other''])"
  by (induction rs s rule: first_match.induct) auto

text \<open>
  Claim C2. For every message the categorizer returns the label of the first rule, in
  the fixed order of the taxonomy, one of whose keywords occurs in the lower-cased
  message, and \<^verbatim>\<open>other\<close> when no rule matches; a null message gives \<^verbatim>\<open>other\<close>; the
  result is always one of the nine labels.
\<close>

theorem categorize_message_first_match:
  "categorize_message None = ''other''
   \<and> categorize_message (Some m) = first_match category_rules (lower m)
   \<and> categorize_message x \<in> set category_labels"
proof -
  have a: "categorize_message None = ''other''"
    by (simp add: categorize_message_def)
  have b: "categorize_message (Some m) = first_match category_rules (lower m)" for m
    by (simp add: categorize_message_def category_rules_def Let_def)
  have "categorize_message x \<in> set category_labels"
  proof (cases x)
    case None
    then show ?thesis using a by (simp add: category_labels_def)
  next
    case (Some m)
    then show ?thesis
      using b[of m] first_match_label[of category_rules "lower m"]
      by (simp add: category_labels_def)
  qed
  with a b show ?thesis by blast
qed

theorem categorize_message_first_match_witness:
  "categorize_message (Some ''ERROR: Transaction {} failed'') = ''transaction''
   \<and> first_match category_rules ''error: transaction {} failed'' = ''transaction''"
  using categorize_message_first_match [of "''ERROR: Transaction {} failed''" None]
  by (simp add: category_rules_def lower_def lower_char_def is_upper_def)

subsection \<open>The empty input\<close>

text \<open>
  Claim C4. With no input line at all the run does not complete: the frame of parsed
  rows has no column, and reading its \<^verbatim>\<open>timestamp\<close> column raises \<^verbatim>\<open>KeyError\<close>, so no
  statistics are produced.
\<close>

theorem run_complete_analysis_empty:
  "run_complete_analysis conv [] = Inl (KeyError ''timestamp'')"
  by (simp add: run_complete_analysis_def load_logs_def parse_all_logs_def parsed_data_def
      List.map_filter_simps)

subsection \<open>Extraction is partial\<close>

text \<open>
  Claim C10. There is a message of category \<^verbatim>\<open>transaction\<close> on which the extraction
  raises: the class of the \<^verbatim>\<open>amount\<close> pattern captures a lone dot, and the class of the
  \<^verbatim>\<open>userBalance\<close> pattern captures two minus signs; \<^verbatim>\<open>float\<close> rejects both.
\<close>

theorem extract_transactions_raises:
  "(\<exists>m e. categorize_message (Some m) = ''transaction''
          \<and> extract_transactions [row_of_message m] = Inl e)
   \<and> categorize_message (Some bad_amount_message) = ''transaction''
   \<and> extract_transactions [row_of_message bad_amount_message] = Inl (ValueError ''.'')
   \<and> categorize_message (Some bad_balance_message) = ''transaction''
   \<and> extract_transactions [row_of_message bad_balance_message] = Inl (ValueError ''--'')"
proof -
  have a: "categorize_message (Some bad_amount_message) = ''transaction''"
    by (simp add: bad_amount_message_def categorize_message_def string_eval)
  have b: "extract_transactions [row_of_message bad_amount_message] = Inl (ValueError ''.'')"
    by (simp add: bad_amount_message_def categorize_message_def row_eval
        extract_transactions_def tx_data_def string_eval)
  have c: "categorize_message (Some bad_balance_message) = ''transaction''"
    by (simp add: bad_balance_message_def categorize_message_def string_eval)
  have d: "extract_transactions [row_of_message bad_balance_message] = Inl (ValueError ''--'')"
    by (simp add: bad_balance_message_def categorize_message_def row_eval
        extract_transactions_def tx_data_def string_eval)
  from a b have "\<exists>m e. categorize_message (Some m) = ''transaction''
          \<and> extract_transactions [row_of_message m] = Inl e"
    by blast
  with a b c d show ?thesis by blast
qed

subsection \<open>Columns and frames\<close>

lemma set_unique: "set (unique xs) = set xs"
  by (induction xs) auto

lemma distinct_unique: "distinct (unique xs)"
  by (induction xs) (auto simp: set_unique)

lemma length_unique: "length (unique xs) = card (set xs)"
  using distinct_card[OF distinct_unique, of xs] by (simp add: set_unique)

lemma set_map_filter_id: "set (List.map_filter (\<lambda>x. x) xs) = {v. Some v \<in> set xs}"
  by (induction xs) (auto simp: List.map_filter_simps split: option.splits)

lemma nunique_card: "nunique xs = card {v. Some v \<in> set xs}"
  by (simp add: nunique_def length_unique set_map_filter_id)

lemma df_empty_iff: "df_empty txs \<longleftrightarrow> txs = []"
  by (simp add: df_empty_def df_columns_def transaction_columns_def)

lemma has_balance_column: "''userBalance'' \<in> set (df_columns txs) \<longleftrightarrow> txs \<noteq> []"
  by (simp add: df_columns_def transaction_columns_def)

lemma negative_balance_iff: "negative_balance t \<longleftrightarrow> (\<exists>b. userBalance t = Some b \<and> b < 0)"
  by (simp add: negative_balance_def lt_cell_def split: option.splits)

lemma low_balance_iff: "low_balance t \<longleftrightarrow> (\<exists>b. userBalance t = Some b \<and> 0 \<le> b \<and> b < 10)"
  by (auto simp add: low_balance_def lt_cell_def ge_cell_def split: option.splits)

subsection \<open>Retention of candidates\<close>











subsection \<open>The overdraft detector\<close>

text \<open>
  Claim C5. The negative-balance rows are the rows with a non-null balance below 0,
  the low-balance rows those with a non-null balance from 0 up to, not including, 10;
  the two sets are disjoint and a row with a null balance is in neither;
  \<^verbatim>\<open>at_risk_users\<close> is the number of distinct user ids among the low-balance rows; an
  empty table, or one without the balance column, gives three zero counts and no error.
\<close>

theorem detect_overdrafts_partition:
  assumes "detect_overdrafts txs = (ods, st)"
  shows "ods = filter (\<lambda>t. \<exists>b. userBalance t = Some b \<and> b < 0) txs
     \<and> negative_balance_count st = length (filter (\<lambda>t. \<exists>b. userBalance t = Some b \<and> b < 0) txs)
     \<and> low_balance_count st = length (filter (\<lambda>t. \<exists>b. userBalance t = Some b \<and> 0 \<le> b \<and> b < 10) txs)
     \<and> set (filter negative_balance txs) \<inter> set (filter low_balance txs) = {}
     \<and> (userBalance t = None \<longrightarrow> \<not> negative_balance t \<and> \<not> low_balance t)
     \<and> at_risk_users st = card {u. \<exists>t \<in> set txs. low_balance t \<and> userId t = Some u}
     \<and> (df_empty txs \<or> ''userBalance'' \<notin> set (df_columns txs) \<longrightarrow>
          ods = [] \<and> negative_balance_count st = 0 \<and> low_balance_count st = 0 \<and> at_risk_users st = 0)"
proof (cases "txs = []")
  case True
  then show ?thesis using assms
    by (auto simp: detect_overdrafts_def df_empty_iff has_balance_column negative_balance_iff low_balance_iff)
next
  case False
  let ?neg = "filter negative_balance txs" and ?low = "filter low_balance txs"
  have ods: "ods = ?neg"
    using assms False by (auto simp: detect_overdrafts_def df_empty_iff has_balance_column Let_def)
  have st: "st = \<lparr> negative_balance_count = length ?neg, low_balance_count = length ?low,
                   at_risk_users = (if ?low \<noteq> [] then nunique (map userId ?low) else 0) \<rparr>"
    using assms False by (auto simp: detect_overdrafts_def df_empty_iff has_balance_column Let_def)
  have negf: "?neg = filter (\<lambda>t. \<exists>b. userBalance t = Some b \<and> b < 0) txs"
    by (rule filter_cong) (auto simp: negative_balance_iff)
  have lowf: "?low = filter (\<lambda>t. \<exists>b. userBalance t = Some b \<and> 0 \<le> b \<and> b < 10) txs"
    by (rule filter_cong) (auto simp: low_balance_iff)
  have disj: "set ?neg \<inter> set ?low = {}"
    by (auto simp: negative_balance_iff low_balance_iff)
  have null: "userBalance t = None \<longrightarrow> \<not> negative_balance t \<and> \<not> low_balance t"
    by (simp add: negative_balance_iff low_balance_iff)
  have seteq: "{v. Some v \<in> set (map userId ?low)} = {u. \<exists>t \<in> set txs. low_balance t \<and> userId t = Some u}"
    by (auto simp: image_iff) 
  have risk: "at_risk_users st = card {u. \<exists>t \<in> set txs. low_balance t \<and> userId t = Some u}"
  proof (cases "?low = []")
    case True
    then have "{u. \<exists>t \<in> set txs. low_balance t \<and> userId t = Some u} = {}"
      by (auto simp: filter_empty_conv)
    then show ?thesis using True st by simp
  next
    case False
    then show ?thesis using st by (simp add: nunique_card seteq del: set_map)
  qed
  have deg: "df_empty txs \<or> ''userBalance'' \<notin> set (df_columns txs) \<longrightarrow>
          ods = [] \<and> negative_balance_count st = 0 \<and> low_balance_count st = 0 \<and> at_risk_users st = 0"
    using False by (simp add: df_empty_iff has_balance_column)
  show ?thesis
    using ods st negf lowf disj null risk deg by simp
qed

lemma balance_table_detected: "detect_overdrafts balance_table =
    ([example_tx ''u1'' None (Some 1) (Some (-5))],
     \<lparr> negative_balance_count = 1, low_balance_count = 1, at_risk_users = 1 \<rparr>)"
  by (simp add: detect_overdrafts_def balance_table_def example_tx_def df_empty_iff has_balance_column
      negative_balance_def low_balance_def lt_cell_def ge_cell_def nunique_def List.map_filter_simps Let_def)

theorem detect_overdrafts_partition_witness:
  "detect_overdrafts balance_table =
    ([example_tx ''u1'' None (Some 1) (Some (-5))],
     \<lparr> negative_balance_count = 1, low_balance_count = 1, at_risk_users = 1 \<rparr>)
   \<and> card {u. \<exists>t \<in> set balance_table. low_balance t \<and> userId t = Some u} = 1
   \<and> set (filter negative_balance balance_table) \<inter> set (filter low_balance balance_table) = {}"
proof -
  note p = detect_overdrafts_partition[OF balance_table_detected]
  from p have "at_risk_users \<lparr> negative_balance_count = 1, low_balance_count = 1, at_risk_users = 1 \<rparr>
      = card {u. \<exists>t \<in> set balance_table. low_balance t \<and> userId t = Some u}"
    by blast
  then have a: "card {u. \<exists>t \<in> set balance_table. low_balance t \<and> userId t = Some u} = 1"
    by simp
  from p have d: "set (filter negative_balance balance_table) \<inter> set (filter low_balance balance_table) = {}"
    by blast
  from balance_table_detected a d show ?thesis by (intro conjI)
qed

subsection \<open>The user summary\<close>

lemma set_sort_values: "set (sort_values rows) = set rows"
  by (auto simp: sort_values_def)

lemma mset_sort_values: "mset (sort_values rows) = mset rows"
  by (simp add: sort_values_def)

lemma sort_values_Nil: "sort_values rows = [] \<longleftrightarrow> rows = []"
  using set_sort_values[of rows] by (metis set_empty)

lemma set_user_txs: "set (user_txs txs uid) = {t \<in> set txs. userId t = Some uid}"
  by (auto simp: user_txs_def set_sort_values)

lemma set_map_filter: "set (List.map_filter f xs) = {y. \<exists>x \<in> set xs. f x = Some y}"
  by (induction xs) (auto simp: List.map_filter_simps split: option.splits)

lemma user_row_id: "user_row txs uid = Some r \<Longrightarrow> user_id r = uid"
  by (auto simp: user_row_def Let_def split: if_splits)

lemma analyze_row:
  assumes "r \<in> set (analyze_user_patterns txs)"
  shows "user_row txs (user_id r) = Some r"
proof -
  from assms obtain uid where "user_row txs uid = Some r"
    by (auto simp: analyze_user_patterns_def set_map_filter split: if_splits)
  then show ?thesis using user_row_id by blast
qed

lemma finite_Some_values: "finite {v. Some v \<in> set xs}"
proof -
  have "{v. Some v \<in> set xs} = the ` (set xs - {None})" by force 
  then show ?thesis by simp
qed

lemma nanmin_Min:
  "nanmin xs = (if {v. Some v \<in> set xs} = {} then None else Some (Min {v. Some v \<in> set xs}))"
proof (induction xs rule: nanmin.induct)
  case 1
  then show ?case by simp
next
  case (2 xs)
  have "{v. Some v \<in> set (None # xs)} = {v. Some v \<in> set xs}" by auto
  then show ?case using 2 by simp
next
  case (3 v xs)
  let ?B = "{v. Some v \<in> set xs}"
  have ins: "{w. Some w \<in> set (Some v # xs)} = insert v ?B" by auto
  show ?case
  proof (cases "?B = {}")
    case True
    then show ?thesis using 3 ins by simp
  next
    case False
    then have m: "Min (insert v ?B) = min v (Min ?B)"
      using finite_Some_values[of xs] by simp
    have "nanmin xs = Some (Min ?B)" using 3 False by simp
    then have "nanmin (Some v # xs) = Some (min v (Min ?B))" by simp
    also have "\<dots> = Some (Min {w. Some w \<in> set (Some v # xs)})"
      unfolding ins using m by simp
    finally show ?thesis unfolding ins by simp
  qed
qed

lemma user_row_fields:
  assumes "user_row txs uid = Some r"
  shows "user_txs txs uid \<noteq> []"
    and "min_balance r = nanmin (map userBalance (user_txs txs uid))"
    and "overdraft_flag r = (min_balance r \<noteq> None \<and> lt_cell (min_balance r) 0)"
    and "current_balance r = userBalance (last (user_txs txs uid))"
    and "first_transaction r = timestamp_tx (hd (user_txs txs uid))"
    and "last_transaction r = timestamp_tx (last (user_txs txs uid))"
proof -
  show ne: "user_txs txs uid \<noteq> []"
    using assms by (auto simp: user_row_def Let_def df_empty_iff split: if_splits)
  let ?rows = "user_txs txs uid"
  let ?mn = "nanmin (map userBalance ?rows)"
  have "Some r = user_row txs uid" using assms by simp
  also have "\<dots> = Some \<lparr> user_id = uid,
                         transaction_count = length ?rows,
                         credit_count = length (of_type ''CREDIT'' ?rows),
                         debit_count = length (of_type ''DEBIT'' ?rows),
                         total_credits = sum_skipna (map amount (of_type ''CREDIT'' ?rows)),
                         total_debits = sum_skipna (map amount (of_type ''DEBIT'' ?rows)),
                         min_balance = ?mn,
                         max_balance = nanmax (map userBalance ?rows),
                         current_balance = userBalance (last ?rows),
                         first_transaction = timestamp_tx (hd ?rows),
                         last_transaction = timestamp_tx (last ?rows),
                         overdraft_flag = (?mn \<noteq> None \<and> lt_cell ?mn 0) \<rparr>"
    using ne by (simp add: user_row_def Let_def df_empty_iff has_balance_column)
  finally have r: "r = \<lparr> user_id = uid,
                         transaction_count = length ?rows,
                         credit_count = length (of_type ''CREDIT'' ?rows),
                         debit_count = length (of_type ''DEBIT'' ?rows),
                         total_credits = sum_skipna (map amount (of_type ''CREDIT'' ?rows)),
                         total_debits = sum_skipna (map amount (of_type ''DEBIT'' ?rows)),
                         min_balance = ?mn,
                         max_balance = nanmax (map userBalance ?rows),
                         current_balance = userBalance (last ?rows),
                         first_transaction = timestamp_tx (hd ?rows),
                         last_transaction = timestamp_tx (last ?rows),
                         overdraft_flag = (?mn \<noteq> None \<and> lt_cell ?mn 0) \<rparr>"
    by simp
  show "min_balance r = ?mn" by (subst r) simp
  show "overdraft_flag r = (min_balance r \<noteq> None \<and> lt_cell (min_balance r) 0)"
    by (subst r, subst r, subst r) simp
  show "current_balance r = userBalance (last ?rows)" by (subst r) simp
  show "first_transaction r = timestamp_tx (hd ?rows)" by (subst r) simp
  show "last_transaction r = timestamp_tx (last ?rows)" by (subst r) simp
qed

text \<open>
  Claim C6. For every row of the user summary the overdraft flag is set if and only if
  the minimum balance of the row is a number below 0, and that minimum is the least
  non-null \<^verbatim>\<open>userBalance\<close> among the user's transactions (null when there is none).
\<close>

theorem overdraft_flag_iff_min_balance_negative:
  assumes "r \<in> set (analyze_user_patterns txs)"
  shows "(overdraft_flag r \<longleftrightarrow> (\<exists>m. min_balance r = Some m \<and> m < 0))
     \<and> min_balance r =
         (let B = {b. \<exists>t \<in> set txs. userId t = Some (user_id r) \<and> userBalance t = Some b}
          in if B = {} then None else Some (Min B))"
proof -
  let ?uid = "user_id r"
  let ?rows = "user_txs txs ?uid"
  have row: "user_row txs ?uid = Some r" using assms by (rule analyze_row)
  note f = user_row_fields[OF row]
  have a: "overdraft_flag r \<longleftrightarrow> (\<exists>m. min_balance r = Some m \<and> m < 0)"
    unfolding f(3) by (cases "min_balance r") (simp_all add: lt_cell_def)
  have "{v. Some v \<in> set (map userBalance ?rows)}
        = {b. \<exists>t \<in> set txs. userId t = Some ?uid \<and> userBalance t = Some b}"
    using set_user_txs[of txs ?uid] by (auto simp: image_iff)
  then have b: "min_balance r =
         (let B = {b. \<exists>t \<in> set txs. userId t = Some ?uid \<and> userBalance t = Some b}
          in if B = {} then None else Some (Min B))"
    unfolding f(2) nanmin_Min by (simp add: Let_def del: set_map)
  from a b show ?thesis by blast
qed

lemma example_users_member: "hd (analyze_user_patterns [undated_tx, dated_tx]) \<in> set (analyze_user_patterns [undated_tx, dated_tx])"
  by (simp add: user_txs_def sort_values_def has_datetime_def undated_tx_def dated_tx_def example_tx_def
      analyze_user_patterns_def df_empty_iff has_balance_column List.map_filter_simps user_row_def Let_def)

theorem overdraft_flag_iff_min_balance_negative_witness:
  "hd (analyze_user_patterns [undated_tx, dated_tx]) \<in> set (analyze_user_patterns [undated_tx, dated_tx])
   \<and> (overdraft_flag (hd (analyze_user_patterns [undated_tx, dated_tx]))
        \<longleftrightarrow> (\<exists>m. min_balance (hd (analyze_user_patterns [undated_tx, dated_tx])) = Some m \<and> m < 0))"
  using example_users_member overdraft_flag_iff_min_balance_negative[OF example_users_member] by blast

lemma sort_values_split:
  "\<exists>ds us. sort_values rows = ds @ us
     \<and> list_all has_datetime ds
     \<and> sorted (map (\<lambda>t. the (datetime_tx t)) ds)
     \<and> mset ds = mset (filter has_datetime rows)
     \<and> us = filter (\<lambda>t. \<not> has_datetime t) rows"
proof -
  let ?ds = "sort_key (\<lambda>t. the (datetime_tx t)) (filter has_datetime rows)"
  have "list_all has_datetime ?ds" by (simp add: list_all_iff)
  moreover have "sorted (map (\<lambda>t. the (datetime_tx t)) ?ds)" by (rule sorted_sort_key)
  moreover have "mset ?ds = mset (filter has_datetime rows)" by simp
  ultimately show ?thesis unfolding sort_values_def by blast
qed

lemma distinct_map_filter_id: "distinct xs \<Longrightarrow> distinct (List.map_filter (\<lambda>x. x) xs)"
  by (induction xs) (auto simp: List.map_filter_simps set_map_filter_id split: option.splits)

lemma map_filter_total:
  "(\<And>x. x \<in> set xs \<Longrightarrow> f x \<noteq> None) \<Longrightarrow> List.map_filter f xs = map (\<lambda>x. the (f x)) xs"
  by (induction xs) (auto simp: List.map_filter_simps split: option.splits)

lemma filter_eq_distinct: "distinct xs \<Longrightarrow> u \<in> set xs \<Longrightarrow> filter (\<lambda>x. x = u) xs = [u]"
proof (induction xs)
  case Nil
  then show ?case by simp
next
  case (Cons x xs)
  show ?case
  proof (cases "x = u")
    case True
    then have "u \<notin> set xs" using Cons.prems by simp
    then have "filter (\<lambda>x. x = u) xs = []" by (auto simp: filter_empty_conv)
    then show ?thesis using True by simp
  next
    case False
    then show ?thesis using Cons by simp
  qed
qed

text \<open>
  The loop visits the distinct non-null user ids once each, and every visit appends a
  row: a user id that occurs in the table has exactly one row in the summary.
\<close>

lemma user_row_Some:
  assumes "t \<in> set txs" "userId t = Some uid"
  shows "\<exists>r. user_row txs uid = Some r"
proof -
  have "t \<in> set (user_txs txs uid)" using assms by (simp add: set_user_txs)
  then have "user_txs txs uid \<noteq> []" by auto
  then show ?thesis by (simp add: user_row_def Let_def df_empty_iff)
qed

lemma analyze_user_patterns_map:
  assumes "txs \<noteq> []"
  shows "analyze_user_patterns txs =
           map (\<lambda>u. the (user_row txs u)) (List.map_filter (\<lambda>u. u) (unique (map userId txs)))"
proof -
  have "user_row txs u \<noteq> None"
    if "u \<in> set (List.map_filter (\<lambda>u. u) (unique (map userId txs)))" for u
  proof -
    from that have "Some u \<in> set (map userId txs)" by (simp add: set_map_filter_id set_unique)
    then obtain t where "t \<in> set txs" "userId t = Some u" by auto
    then show ?thesis using user_row_Some by fastforce
  qed
  then show ?thesis using assms by (simp add: analyze_user_patterns_def df_empty_iff map_filter_total)
qed

lemma one_row_per_user:
  assumes "t \<in> set txs" "userId t = Some uid"
  shows "\<exists>r. user_row txs uid = Some r
            \<and> filter (\<lambda>r. user_id r = uid) (analyze_user_patterns txs) = [r]"
proof -
  let ?uids = "List.map_filter (\<lambda>u. u) (unique (map userId txs))"
  have ne: "txs \<noteq> []" using assms(1) by auto
  have d: "distinct ?uids" by (simp add: distinct_map_filter_id distinct_unique)
  have m: "uid \<in> set ?uids" using assms by (force simp: set_map_filter_id set_unique)
  obtain r where r: "user_row txs uid = Some r" using user_row_Some[OF assms] by blast
  have id: "user_id (the (user_row txs u)) = u" if "u \<in> set ?uids" for u
  proof -
    from that have "Some u \<in> set (map userId txs)" by (simp add: set_map_filter_id set_unique)
    then obtain t' where "t' \<in> set txs" "userId t' = Some u" by auto
    then obtain r' where "user_row txs u = Some r'" using user_row_Some by blast
    then show ?thesis using user_row_id by fastforce
  qed
  have "filter (\<lambda>r. user_id r = uid) (analyze_user_patterns txs)
        = map (\<lambda>u. the (user_row txs u)) (filter (\<lambda>u. user_id (the (user_row txs u)) = uid) ?uids)"
    by (simp add: analyze_user_patterns_map[OF ne] filter_map comp_def)
  also have "filter (\<lambda>u. user_id (the (user_row txs u)) = uid) ?uids = filter (\<lambda>u. u = uid) ?uids"
    by (rule filter_cong) (simp_all add: id)
  also have "\<dots> = [uid]" using d m by (rule filter_eq_distinct)
  finally have "filter (\<lambda>r. user_id r = uid) (analyze_user_patterns txs) = [r]"
    using r by simp
  with r show ?thesis by blast
qed

text \<open>
  Claim C3, as the code has it. Every user with at least one transaction has exactly
  one row in the summary. The transactions of the user are ordered with the rows that
  have a date-time first, ascending, and the rows without a date-time after all of
  them, in their original order; \<^verbatim>\<open>first_transaction\<close> is read from the first row of
  this order, \<^verbatim>\<open>last_transaction\<close> and \<^verbatim>\<open>current_balance\<close> from the last.
\<close>

theorem user_txs_sorted_nulls_last:
  assumes "t \<in> set txs" and "userId t = Some uid"
  shows "\<exists>r ds us. filter (\<lambda>r. user_id r = uid) (analyze_user_patterns txs) = [r]
     \<and> user_txs txs uid = ds @ us
     \<and> ds @ us \<noteq> []
     \<and> list_all has_datetime ds
     \<and> sorted (map (\<lambda>t. the (datetime_tx t)) ds)
     \<and> mset ds = mset (filter has_datetime (filter (\<lambda>t. userId t = Some uid) txs))
     \<and> us = filter (\<lambda>t. \<not> has_datetime t) (filter (\<lambda>t. userId t = Some uid) txs)
     \<and> first_transaction r = timestamp_tx (hd (ds @ us))
     \<and> last_transaction r = timestamp_tx (last (ds @ us))
     \<and> current_balance r = userBalance (last (ds @ us))"
proof -
  let ?own = "filter (\<lambda>t. userId t = Some uid) txs"
  from one_row_per_user[OF assms] obtain r where row: "user_row txs uid = Some r"
    and one: "filter (\<lambda>r. user_id r = uid) (analyze_user_patterns txs) = [r]" by blast
  note f = user_row_fields[OF row]
  obtain ds us where s: "sort_values ?own = ds @ us"
    and p: "list_all has_datetime ds" "sorted (map (\<lambda>t. the (datetime_tx t)) ds)"
      "mset ds = mset (filter has_datetime ?own)" "us = filter (\<lambda>t. \<not> has_datetime t) ?own"
    using sort_values_split[of ?own] by blast
  have u: "user_txs txs uid = ds @ us" using s by (simp add: user_txs_def)
  have ne: "ds @ us \<noteq> []" using f(1) unfolding u .
  have a: "first_transaction r = timestamp_tx (hd (ds @ us))" using f(5) unfolding u .
  have b: "last_transaction r = timestamp_tx (last (ds @ us))" using f(6) unfolding u .
  have c: "current_balance r = userBalance (last (ds @ us))" using f(4) unfolding u .
  from one u ne p a b c show ?thesis by (intro exI conjI)
qed

lemma undated_member: "undated_tx \<in> set [undated_tx, dated_tx] \<and> userId undated_tx = Some ''u1''"
  by (simp add: undated_tx_def example_tx_def)

theorem user_txs_sorted_nulls_last_witness:
  "undated_tx \<in> set [undated_tx, dated_tx] \<and> userId undated_tx = Some ''u1''
   \<and> (\<exists>r ds us. filter (\<lambda>r. user_id r = ''u1'') (analyze_user_patterns [undated_tx, dated_tx]) = [r]
     \<and> user_txs [undated_tx, dated_tx] ''u1'' = ds @ us
     \<and> ds @ us \<noteq> []
     \<and> list_all has_datetime ds
     \<and> sorted (map (\<lambda>t. the (datetime_tx t)) ds)
     \<and> mset ds = mset (filter has_datetime (filter (\<lambda>t. userId t = Some ''u1'') [undated_tx, dated_tx]))
     \<and> us = filter (\<lambda>t. \<not> has_datetime t) (filter (\<lambda>t. userId t = Some ''u1'') [undated_tx, dated_tx])
     \<and> first_transaction r = timestamp_tx (hd (ds @ us))
     \<and> last_transaction r = timestamp_tx (last (ds @ us))
     \<and> current_balance r = userBalance (last (ds @ us)))"
proof -
  note m = undated_member
  have a: "undated_tx \<in> set [undated_tx, dated_tx]" using m by (rule conjunct1)
  have b: "userId undated_tx = Some ''u1''" using m by (rule conjunct2)
  from a b user_txs_sorted_nulls_last[OF a b] show ?thesis by (intro conjI)
qed

text \<open>
  Claim C3, as stated, fails: of two rows of one user, the one without a date-time
  comes first in the table and last after sorting, so the last transaction and the
  current balance are read from it.
\<close>

theorem undated_row_sorts_last:
  "user_txs [undated_tx, dated_tx] ''u1'' = [dated_tx, undated_tx]
   \<and> datetime_tx undated_tx = None
   \<and> datetime_tx dated_tx = Some 100
   \<and> map first_transaction (analyze_user_patterns [undated_tx, dated_tx]) = [Some ''2024-01-01T10:00:00.123Z'']
   \<and> map last_transaction (analyze_user_patterns [undated_tx, dated_tx]) = [None]
   \<and> map current_balance (analyze_user_patterns [undated_tx, dated_tx]) = [Some 7]"
  by (simp add: user_txs_def sort_values_def has_datetime_def undated_tx_def dated_tx_def example_tx_def
      analyze_user_patterns_def df_empty_iff has_balance_column List.map_filter_simps user_row_def Let_def)

subsection \<open>Category percentages\<close>

lemma sum_list_sort_key: "sum_list (map f (sort_key k xs)) = sum_list (map (f :: 'a \<Rightarrow> nat) xs)"
proof -
  have "mset (map f (sort_key k xs)) = mset (map f xs)" by simp
  then show ?thesis by (metis sum_mset_sum_list)
qed

lemma sum_count_unique: "sum_list (map (count_list xs) (unique xs)) = length xs"
proof -
  have "sum_list (map (count_list xs) (unique xs)) = sum (count_list xs) (set (unique xs))"
    using distinct_unique by (rule sum_list_distinct_conv_sum_set)
  also have "\<dots> = length xs" by (simp add: set_unique sum_count_set)
  finally show ?thesis .
qed

lemma count_sum_value_counts: "count_sum (value_counts xs) = length xs"
proof -
  have "count_sum (value_counts xs) = sum_list (map snd (map (\<lambda>c. (c, count_list xs c)) (unique xs)))"
    unfolding count_sum_def value_counts_def by (rule sum_list_sort_key)
  also have "\<dots> = sum_list (map (count_list xs) (unique xs))" by (simp add: comp_def)
  finally show ?thesis by (simp add: sum_count_unique)
qed

lemma sum_percentages:
  "sum_list (map (\<lambda>(c, n). of_nat n / T * (100::rat)) stats) = of_nat (count_sum stats) / T * 100"
  by (induction stats) (auto simp: count_sum_def add_divide_distrib distrib_right)

text \<open>
  Claim C9. The percentage of a category is its count divided by the sum of all counts,
  times 100; for a non-empty set of categorized rows the sum of the counts is the number
  of rows and the percentages add up to exactly 100.
\<close>

theorem category_percentages_sum:
  assumes "logs \<noteq> []"
  shows "category_stats_csv (export_results txs (snd (categorize_logs logs)))
           = map (\<lambda>(c, n). (c, n, of_nat n / of_nat (count_sum (snd (categorize_logs logs))) * 100))
               (snd (categorize_logs logs))
    \<and> count_sum (snd (categorize_logs logs)) = length logs
    \<and> sum_list (map (\<lambda>(c, n, p). p)
         (category_stats_csv (export_results txs (snd (categorize_logs logs))))) = 100"
proof -
  let ?stats = "snd (categorize_logs logs)"
  have t: "category_stats_csv (export_results txs ?stats)
           = map (\<lambda>(c, n). (c, n, of_nat n / of_nat (count_sum ?stats) * 100)) ?stats"
    by (simp add: export_results_def Let_def category_table_def percentage_def)
  have n: "count_sum ?stats = length logs"
    by (simp add: categorize_logs_def Let_def count_sum_value_counts)
  have "map (\<lambda>(c, n, p). p) (category_stats_csv (export_results txs ?stats))
        = map (\<lambda>(c, n). of_nat n / of_nat (count_sum ?stats) * 100) ?stats"
    unfolding t by (simp add: comp_def case_prod_unfold)
  then have "sum_list (map (\<lambda>(c, n, p). p) (category_stats_csv (export_results txs ?stats)))
        = of_nat (count_sum ?stats) / of_nat (count_sum ?stats) * 100"
    by (simp only: sum_percentages)
  also have "\<dots> = 100" using assms n by simp
  finally show ?thesis using t n by blast
qed

lemma message_rows_nonempty: "message_rows \<noteq> []"
  by (simp add: message_rows_def)

theorem category_percentages_sum_witness:
  "message_rows \<noteq> []
   \<and> sum_list (map (\<lambda>(c, n, p). p)
         (category_stats_csv (export_results [] (snd (categorize_logs message_rows))))) = 100"
  using message_rows_nonempty category_percentages_sum[OF message_rows_nonempty, of "[]"] by blast

subsection \<open>The timestamp pattern\<close>

lemma digits_n_append:
  "length d = n \<Longrightarrow> list_all is_digit d \<Longrightarrow> digits_n n (d @ r) = Some r"
  by (induction d arbitrary: n) auto

lemma digits_n_Some:
  "digits_n n s = Some r \<Longrightarrow> \<exists>d. s = d @ r \<and> length d = n \<and> list_all is_digit d"
proof (induction n s rule: digits_n.induct)
  case (1 s)
  then show ?case by simp
next
  case (2 n)
  then show ?case by simp
next
  case (3 n c cs)
  then have c: "is_digit c" and "digits_n n cs = Some r" by (auto split: if_splits)
  then obtain d where "cs = d @ r" "length d = n" "list_all is_digit d" using 3 by blast
  then have "c # cs = (c # d) @ r \<and> length (c # d) = Suc n \<and> list_all is_digit (c # d)"
    using c by simp
  then show ?case by blast
qed

lemma chr_lit_Some: "chr_lit c s = Some r \<longleftrightarrow> s = c # r"
  by (auto simp: chr_lit_def split: list.splits)

lemma class_plus_Some:
  "class_plus P s = Some r \<Longrightarrow> \<exists>d. s = d @ r \<and> d \<noteq> [] \<and> list_all P d"
proof -
  assume a: "class_plus P s = Some r"
  then have "takeWhile P s \<noteq> []" "r = dropWhile P s"
    by (auto simp: class_plus_def split: if_splits)
  moreover have "s = takeWhile P s @ dropWhile P s" by simp
  moreover have "list_all P (takeWhile P s)" by (simp add: list_all_iff) (meson set_takeWhileD)
  ultimately show ?thesis by metis
qed

lemma class_plus_append:
  "d \<noteq> [] \<Longrightarrow> list_all P d \<Longrightarrow> \<not> P c \<Longrightarrow> class_plus P (d @ c # r) = Some (c # r)"
proof -
  assume a: "d \<noteq> []" "list_all P d" "\<not> P c"
  then have t: "takeWhile P (d @ c # r) = d"
    by (simp add: list_all_iff takeWhile_append2)
  have "dropWhile P (d @ c # r) = c # r"
    using a by (simp add: list_all_iff dropWhile_append2)
  then show ?thesis using t a by (simp add: class_plus_def)
qed

lemma chr_lit_Cons: "chr_lit c (c # r) = Some r"
  by (simp add: chr_lit_def)

lemma not_digit_Z: "\<not> is_digit (CHR ''Z'')"
  by (simp add: is_digit_def)

lemma timestamp_rest_shape:
  assumes "timestamp_shape t"
  shows "timestamp_rest (t @ r) = Some r"
proof -
  from assms obtain Y M D h m s f where
    t: "t = Y @ ''-'' @ M @ ''-'' @ D @ ''T'' @ h @ '':'' @ m @ '':'' @ s @ ''.'' @ f @ ''Z''"
    and l: "length Y = 4" "length M = 2" "length D = 2" "length h = 2" "length m = 2"
      "length s = 2" "f \<noteq> []"
    and d: "list_all is_digit Y" "list_all is_digit M" "list_all is_digit D"
      "list_all is_digit h" "list_all is_digit m" "list_all is_digit s" "list_all is_digit f"
    unfolding timestamp_shape_def by auto
  have f: "class_plus is_digit (f @ CHR ''Z'' # r) = Some (CHR ''Z'' # r)"
    using l(7) d(7) not_digit_Z by (rule class_plus_append)
  show ?thesis
    unfolding t timestamp_rest_def
    by (simp add: digits_n_append l d chr_lit_Cons f)
qed

lemma bind_SomeD: "Option.bind x k = Some r \<Longrightarrow> \<exists>y. x = Some y \<and> k y = Some r"
  by (cases x) auto

lemma timestamp_rest_chain:
  assumes "timestamp_rest s = Some r"
  shows "\<exists>s1 s2 s3 s4 s5 s6 s7 s8 s9 s10 s11 s12 s13.
       digits_n 4 s = Some s1 \<and> chr_lit (CHR ''-'') s1 = Some s2
     \<and> digits_n 2 s2 = Some s3 \<and> chr_lit (CHR ''-'') s3 = Some s4
     \<and> digits_n 2 s4 = Some s5 \<and> chr_lit (CHR ''T'') s5 = Some s6
     \<and> digits_n 2 s6 = Some s7 \<and> chr_lit (CHR '':'') s7 = Some s8
     \<and> digits_n 2 s8 = Some s9 \<and> chr_lit (CHR '':'') s9 = Some s10
     \<and> digits_n 2 s10 = Some s11 \<and> chr_lit (CHR ''.'') s11 = Some s12
     \<and> class_plus is_digit s12 = Some s13 \<and> chr_lit (CHR ''Z'') s13 = Some r"
  using assms unfolding timestamp_rest_def
  apply -
  apply (drule bind_SomeD, elim exE conjE)+
  apply (intro exI conjI)
  apply assumption+
  done

lemma timestamp_rest_Some:
  assumes "timestamp_rest s = Some r"
  shows "\<exists>t. timestamp_shape t \<and> s = t @ r"
proof -
  from timestamp_rest_chain[OF assms] obtain s1 s2 s3 s4 s5 s6 s7 s8 s9 s10 s11 s12 s13 where
    c: "digits_n 4 s = Some s1" "chr_lit (CHR ''-'') s1 = Some s2"
       "digits_n 2 s2 = Some s3" "chr_lit (CHR ''-'') s3 = Some s4"
       "digits_n 2 s4 = Some s5" "chr_lit (CHR ''T'') s5 = Some s6"
       "digits_n 2 s6 = Some s7" "chr_lit (CHR '':'') s7 = Some s8"
       "digits_n 2 s8 = Some s9" "chr_lit (CHR '':'') s9 = Some s10"
       "digits_n 2 s10 = Some s11" "chr_lit (CHR ''.'') s11 = Some s12"
       "class_plus is_digit s12 = Some s13" "chr_lit (CHR ''Z'') s13 = Some r"
    by blast
  from digits_n_Some[OF c(1)] obtain Y where Y: "s = Y @ s1" "length Y = 4" "list_all is_digit Y" by blast
  from digits_n_Some[OF c(3)] obtain M where M: "s2 = M @ s3" "length M = 2" "list_all is_digit M" by blast
  from digits_n_Some[OF c(5)] obtain D where D: "s4 = D @ s5" "length D = 2" "list_all is_digit D" by blast
  from digits_n_Some[OF c(7)] obtain h where h: "s6 = h @ s7" "length h = 2" "list_all is_digit h" by blast
  from digits_n_Some[OF c(9)] obtain m where m: "s8 = m @ s9" "length m = 2" "list_all is_digit m" by blast
  from digits_n_Some[OF c(11)] obtain sec where sec: "s10 = sec @ s11" "length sec = 2" "list_all is_digit sec" by blast
  from class_plus_Some[OF c(13)] obtain f where f: "s12 = f @ s13" "f \<noteq> []" "list_all is_digit f" by blast
  have l: "s1 = CHR ''-'' # s2" "s3 = CHR ''-'' # s4" "s5 = CHR ''T'' # s6" "s7 = CHR '':'' # s8"
    "s9 = CHR '':'' # s10" "s11 = CHR ''.'' # s12" "s13 = CHR ''Z'' # r"
    using c(2,4,6,8,10,12,14) by (simp_all only: chr_lit_Some)
  let ?t = "Y @ ''-'' @ M @ ''-'' @ D @ ''T'' @ h @ '':'' @ m @ '':'' @ sec @ ''.'' @ f @ ''Z''"
  have e: "s = ?t @ r"
    unfolding Y(1) l M(1) D(1) h(1) m(1) sec(1) f(1) by simp
  have "list_all is_digit (Y @ M @ D @ h @ m @ sec @ f)"
    using Y(3) M(3) D(3) h(3) m(3) sec(3) f(3) by simp
  then have "timestamp_shape ?t"
    unfolding timestamp_shape_def
    using Y(2) M(2) D(2) h(2) m(2) sec(2) f(2) by blast
  with e show ?thesis by blast
qed

lemma timestamp_match_iff:
  "timestamp_match s = Some t \<longleftrightarrow> timestamp_shape t \<and> (\<exists>r. s = t @ r)"
proof
  assume "timestamp_match s = Some t"
  then obtain r where r: "timestamp_rest s = Some r" and t: "t = take (length s - length r) s"
    by (auto simp: timestamp_match_def split: option.splits)
  from timestamp_rest_Some[OF r] obtain t' where t': "timestamp_shape t'" "s = t' @ r" by blast
  then have "t = t'" using t by simp
  then show "timestamp_shape t \<and> (\<exists>r. s = t @ r)" using t' by blast
next
  assume "timestamp_shape t \<and> (\<exists>r. s = t @ r)"
  then obtain r where sh: "timestamp_shape t" and s: "s = t @ r" by blast
  have "timestamp_rest s = Some r" unfolding s using sh by (rule timestamp_rest_shape)
  then show "timestamp_match s = Some t" by (simp add: timestamp_match_def s)
qed

lemma timestamp_match_None:
  "timestamp_match s = None \<longleftrightarrow> \<not> (\<exists>t r. timestamp_shape t \<and> s = t @ r)"
proof -
  have "timestamp_match s \<noteq> None \<longleftrightarrow> (\<exists>t. timestamp_match s = Some t)" by auto
  also have "\<dots> \<longleftrightarrow> (\<exists>t r. timestamp_shape t \<and> s = t @ r)"
    unfolding timestamp_match_iff by blast
  finally show ?thesis by blast
qed

lemma split_on_nonempty: "split_on d s \<noteq> []"
  by (induction s) (auto split: list.splits)

lemma length_split_on: "length (split_on d s) = Suc (count_list s d)"
proof (induction s)
  case Nil
  then show ?case by simp
next
  case (Cons c cs)
  then show ?case using split_on_nonempty[of d cs] by (auto split: list.splits)
qed

lemma split_on_concat: "concat (map (\<lambda>w. w @ [d]) (split_on d s)) = s @ [d]"
proof (induction s)
  case Nil
  then show ?case by simp
next
  case (Cons c cs)
  then show ?case using split_on_nonempty[of d cs] by (auto split: list.splits)
qed

lemma split_on_no_sep: "w \<in> set (split_on d s) \<Longrightarrow> d \<notin> set w"
proof (induction s arbitrary: w)
  case Nil
  then show ?case by simp
next
  case (Cons c cs)
  then show ?case using split_on_nonempty[of d cs] by (auto split: list.splits if_splits)
qed

lemma segment_None: "segment xs i = None \<longleftrightarrow> length xs \<le> i"
  by (simp add: segment_def)

subsection \<open>The record parser\<close>

text \<open>
  Claim C8, as the code has it. The parser returns nothing for an undefined line and a
  record for every string, the empty one included; it never raises. The timestamp of
  the record is null exactly when the stripped line does not start with a string of
  the timestamp pattern, and is that string otherwise; the session id, the message type
  and the message are null exactly when the stripped line has fewer than one, two and
  three tab characters, and are the segments after the first, second and third tab
  otherwise.
\<close>

theorem parse_log_data_total:
  "parse_log_data None = None
   \<and> (\<exists>r. parse_log_data (Some s) = Some r
        \<and> (timestamp r = None \<longleftrightarrow> \<not> (\<exists>t u. timestamp_shape t \<and> strip s = t @ u))
        \<and> (timestamp r = Some t \<longleftrightarrow> timestamp_shape t \<and> (\<exists>u. strip s = t @ u))
        \<and> (session_id r = None \<longleftrightarrow> count_list (strip s) tab < 1)
        \<and> (message_type r = None \<longleftrightarrow> count_list (strip s) tab < 2)
        \<and> (message r = None \<longleftrightarrow> count_list (strip s) tab < 3)
        \<and> session_id r = segment (split_on tab (strip s)) 1
        \<and> message_type r = segment (split_on tab (strip s)) 2
        \<and> message r = segment (split_on tab (strip s)) 3)"
proof -
  let ?r = "\<lparr> timestamp = timestamp_match (strip s),
              session_id = segment (split_on tab (strip s)) 1,
              message_type = segment (split_on tab (strip s)) 2,
              message = segment (split_on tab (strip s)) 3 \<rparr>"
  have n: "parse_log_data None = None" by (simp add: parse_log_data_def)
  have r: "parse_log_data (Some s) = Some ?r" by (simp add: parse_log_data_def Let_def)
  have a: "timestamp ?r = None \<longleftrightarrow> \<not> (\<exists>t u. timestamp_shape t \<and> strip s = t @ u)"
    by (simp add: timestamp_match_None)
  have b: "timestamp ?r = Some t \<longleftrightarrow> timestamp_shape t \<and> (\<exists>u. strip s = t @ u)"
    by (simp add: timestamp_match_iff)
  have c: "session_id ?r = None \<longleftrightarrow> count_list (strip s) tab < 1"
    by (simp add: segment_None length_split_on)
  have d: "message_type ?r = None \<longleftrightarrow> count_list (strip s) tab < 2"
    by (simp add: segment_None length_split_on) arith
  have e: "message ?r = None \<longleftrightarrow> count_list (strip s) tab < 3"
    by (simp add: segment_None length_split_on) arith
  show ?thesis using n r a b c d e by (intro conjI exI[of _ ?r]) simp_all
qed

text \<open>
  Claim C8, as stated, fails for the empty line: the parser returns a record whose four
  fields are null, not nothing.
\<close>

theorem empty_line_is_parsed:
  "parse_log_data (Some []) =
     Some \<lparr> timestamp = None, session_id = None, message_type = None, message = None \<rparr>"
  by (simp add: parse_log_data_def strip_def timestamp_match_def timestamp_rest_def segment_def
      eval_nat_numeral)

subsection \<open>Conversion of the timestamps\<close>

lemma parse_log_data_Some: "\<exists>r. parse_log_data (Some l) = Some r"
  by (simp add: parse_log_data_def Let_def)

lemma parsed_data_map: "parsed_data raw = map (\<lambda>l. the (parse_log_data (Some l))) raw"
  by (induction raw) (simp_all add: parsed_data_def List.map_filter_simps parse_log_data_def Let_def)

lemma timestamp_parsed: "timestamp (the (parse_log_data (Some l))) = timestamp_match (strip l)"
  by (simp add: parse_log_data_def Let_def)

lemma to_datetime_fail:
  "Some s \<in> set col \<Longrightarrow> conv s = None \<Longrightarrow>
     \<exists>s'. to_datetime conv col = Inl (DateParseError s') \<and> conv s' = None"
proof (induction conv col rule: to_datetime.induct)
  case (1 conv)
  then show ?case by simp
next
  case (2 conv xs)
  then show ?case by auto
next
  case (3 conv x xs)
  show ?case
  proof (cases "conv x")
    case None
    then show ?thesis by simp
  next
    case (Some d)
    then have "Some s \<in> set xs" using 3 by auto
    then obtain s' where "to_datetime conv xs = Inl (DateParseError s')" "conv s' = None"
      using 3 Some by blast
    then show ?thesis using Some by simp
  qed
qed

lemma to_datetime_ok:
  "(\<And>s. Some s \<in> set col \<Longrightarrow> conv s \<noteq> None) \<Longrightarrow>
     to_datetime conv col = Inr (map (\<lambda>c. Option.bind c conv) col)"
proof (induction conv col rule: to_datetime.induct)
  case (1 conv)
  then show ?case by simp
next
  case (2 conv xs)
  then show ?case by simp
next
  case (3 conv x xs)
  then obtain d where d: "conv x = Some d" by fastforce
  have "to_datetime conv xs = Inr (map (\<lambda>c. Option.bind c conv) xs)"
    using 3 d by simp
  then show ?case using d by simp
qed

lemma parse_all_logs_fail:
  assumes "l \<in> set raw" "timestamp_match (strip l) = Some ts" "conv ts = None"
  shows "\<exists>s. parse_all_logs conv raw = Inl (DateParseError s) \<and> conv s = None"
proof -
  have ne: "parsed_data raw \<noteq> []" using assms(1) by (auto simp: parsed_data_map)
  have "Some ts \<in> set (map timestamp (parsed_data raw))"
    using assms(1,2) timestamp_parsed[of l] by (force simp: parsed_data_map)
  from to_datetime_fail[of ts _ conv, OF this assms(3)] obtain s where
    "to_datetime conv (map timestamp (parsed_data raw)) = Inl (DateParseError s)" "conv s = None"
    by blast
  then show ?thesis using ne by (auto simp: parse_all_logs_def Let_def)
qed

lemma parse_all_logs_ok:
  assumes "raw \<noteq> []"
    and "\<And>l ts. l \<in> set raw \<Longrightarrow> timestamp_match (strip l) = Some ts \<Longrightarrow> conv ts \<noteq> None"
  shows "parse_all_logs conv raw =
           Inr (map (\<lambda>l. with_datetime (the (parse_log_data (Some l)))
                           (Option.bind (timestamp_match (strip l)) conv)) raw)"
proof -
  let ?rows = "parsed_data raw"
  have ne: "?rows \<noteq> []" using assms(1) by (simp add: parsed_data_map)
  have "conv s \<noteq> None" if "Some s \<in> set (map timestamp ?rows)" for s
  proof -
    from that obtain l where "l \<in> set raw" "timestamp_match (strip l) = Some s"
      using timestamp_parsed by (auto simp: parsed_data_map)
    then show ?thesis using assms(2) by blast
  qed
  then have "to_datetime conv (map timestamp ?rows) = Inr (map (\<lambda>c. Option.bind c conv) (map timestamp ?rows))"
    by (rule to_datetime_ok)
  then have "parse_all_logs conv raw =
       Inr (map2 with_datetime ?rows (map (\<lambda>c. Option.bind c conv) (map timestamp ?rows)))"
    using ne by (simp add: parse_all_logs_def Let_def)
  also have "map2 with_datetime ?rows (map (\<lambda>c. Option.bind c conv) (map timestamp ?rows))
      = map (\<lambda>l. with_datetime (the (parse_log_data (Some l)))
                           (Option.bind (timestamp_match (strip l)) conv)) raw"
    unfolding parsed_data_map by (induction raw) (simp_all add: timestamp_parsed)
  finally show ?thesis .
qed

text \<open>
  Claim C7. If a line kept by the line filter starts with a string of the timestamp
  pattern that the conversion rejects, the whole run ends with the conversion's
  exception. If every matched timestamp converts, a non-empty batch is parsed into one
  row per line, and a line that does not match the pattern is kept, with a null
  timestamp and a null date-time.
\<close>

theorem unparsable_timestamp_halts_run:
  "(l \<in> set (load_logs lines) \<and> timestamp_match (strip l) = Some ts \<and> conv ts = None
      \<longrightarrow> (\<exists>s. run_complete_analysis conv lines = Inl (DateParseError s) \<and> conv s = None))
   \<and> (raw \<noteq> [] \<and> (\<forall>l ts. l \<in> set raw \<and> timestamp_match (strip l) = Some ts \<longrightarrow> conv ts \<noteq> None)
      \<longrightarrow> (\<exists>rows. parse_all_logs conv raw = Inr rows \<and> length rows = length raw
             \<and> (\<forall>i < length raw. timestamp_match (strip (raw ! i)) = None
                   \<longrightarrow> rows ! i = with_datetime (the (parse_log_data (Some (raw ! i)))) None
                     \<and> timestamp (rows ! i) = None \<and> datetime (rows ! i) = None)))"
proof (intro conjI impI)
  assume "l \<in> set (load_logs lines) \<and> timestamp_match (strip l) = Some ts \<and> conv ts = None"
  then obtain s where "parse_all_logs conv (load_logs lines) = Inl (DateParseError s)" "conv s = None"
    using parse_all_logs_fail by blast
  then show "\<exists>s. run_complete_analysis conv lines = Inl (DateParseError s) \<and> conv s = None"
    by (auto simp: run_complete_analysis_def)
next
  assume a: "raw \<noteq> [] \<and> (\<forall>l ts. l \<in> set raw \<and> timestamp_match (strip l) = Some ts \<longrightarrow> conv ts \<noteq> None)"
  let ?rows = "map (\<lambda>l. with_datetime (the (parse_log_data (Some l)))
                           (Option.bind (timestamp_match (strip l)) conv)) raw"
  have p: "parse_all_logs conv raw = Inr ?rows"
    using a by (intro parse_all_logs_ok) blast+
  have "rows_i = with_datetime (the (parse_log_data (Some (raw ! i)))) None
        \<and> timestamp rows_i = None \<and> datetime rows_i = None"
    if "i < length raw" "timestamp_match (strip (raw ! i)) = None" "rows_i = ?rows ! i" for i rows_i
    using that by (simp add: with_datetime_def log_record.extend_def timestamp_parsed)
  then show "\<exists>rows. parse_all_logs conv raw = Inr rows \<and> length rows = length raw
             \<and> (\<forall>i < length raw. timestamp_match (strip (raw ! i)) = None
                   \<longrightarrow> rows ! i = with_datetime (the (parse_log_data (Some (raw ! i)))) None
                     \<and> timestamp (rows ! i) = None \<and> datetime (rows ! i) = None)"
    using p by (intro exI[of _ ?rows]) simp
qed

lemma digits_n_numeral:
  "digits_n (numeral k) (c # cs) = (if is_digit c then digits_n (pred_numeral k) cs else None)"
  by (simp add: numeral_eq_Suc)

lemma digits_n_numeral_Nil: "digits_n (numeral k) [] = None"
  by (simp add: numeral_eq_Suc)

lemmas line_eval =
  strip_def is_space_def is_digit_def tab_def timestamp_match_def timestamp_rest_def
  digits_n_numeral digits_n_numeral_Nil chr_lit_def class_plus_def segment_def

lemma unanchored_facts: "timestamp_match (strip unanchored_line) = None"
  by (simp add: unanchored_line_def line_eval)

lemma good_match: "timestamp_match (strip good_line) = Some ''2024-01-01T10:00:00.123Z''"
  by (simp add: good_line_def line_eval)

lemma month13_match: "timestamp_match (strip month13_line) = Some ''2024-13-01T10:00:00.123Z''"
  by (simp add: month13_line_def line_eval)

lemma good_conv: "example_conv ''2024-01-01T10:00:00.123Z'' = Some 20240101100000"
  by (simp add: example_conv_def field_def nat_of_digits_def digit_val_def is_digit_def)

lemma month13_conv: "example_conv ''2024-13-01T10:00:00.123Z'' = None"
  by (simp add: example_conv_def field_def nat_of_digits_def digit_val_def is_digit_def)

lemma month13_loaded: "month13_line \<in> set (load_logs [month13_line])"
  by (simp add: load_logs_def month13_line_def line_eval)

lemma unanchored_parsed:
  "parse_log_data (Some unanchored_line) =
     Some \<lparr> timestamp = None, session_id = None, message_type = None, message = None \<rparr>"
  by (simp add: parse_log_data_def unanchored_line_def line_eval)

theorem unparsable_timestamp_halts_run_witness:
  "(\<exists>s. run_complete_analysis example_conv [month13_line] = Inl (DateParseError s)
          \<and> example_conv s = None)
   \<and> (\<exists>rows. parse_all_logs example_conv [unanchored_line, good_line] = Inr rows
         \<and> length rows = length [unanchored_line, good_line]
         \<and> (\<forall>i < length [unanchored_line, good_line].
               timestamp_match (strip ([unanchored_line, good_line] ! i)) = None
               \<longrightarrow> rows ! i = with_datetime (the (parse_log_data (Some ([unanchored_line, good_line] ! i)))) None
                 \<and> timestamp (rows ! i) = None \<and> datetime (rows ! i) = None))"
proof -
  note t = unparsable_timestamp_halts_run[of month13_line "[month13_line]" "''2024-13-01T10:00:00.123Z''" example_conv
             "[unanchored_line, good_line]"]
  have a: "month13_line \<in> set (load_logs [month13_line])
     \<and> timestamp_match (strip month13_line) = Some ''2024-13-01T10:00:00.123Z''
     \<and> example_conv ''2024-13-01T10:00:00.123Z'' = None"
    using month13_loaded month13_match month13_conv by (intro conjI)
  have b: "[unanchored_line, good_line] \<noteq> []
     \<and> (\<forall>l ts. l \<in> set [unanchored_line, good_line] \<and> timestamp_match (strip l) = Some ts
           \<longrightarrow> example_conv ts \<noteq> None)"
    using unanchored_facts good_match good_conv by auto
  from conjunct1[OF t] a have 1: "\<exists>s. run_complete_analysis example_conv [month13_line] = Inl (DateParseError s)
          \<and> example_conv s = None"
    by (rule mp)
  from conjunct2[OF t] b have 2: "\<exists>rows. parse_all_logs example_conv [unanchored_line, good_line] = Inr rows
         \<and> length rows = length [unanchored_line, good_line]
         \<and> (\<forall>i < length [unanchored_line, good_line].
               timestamp_match (strip ([unanchored_line, good_line] ! i)) = None
               \<longrightarrow> rows ! i = with_datetime (the (parse_log_data (Some ([unanchored_line, good_line] ! i)))) None
                 \<and> timestamp (rows ! i) = None \<and> datetime (rows ! i) = None)"
    by (rule mp)
  from 1 2 show ?thesis by (rule conjI)
qed

theorem parse_log_data_total_witness:
  "parse_log_data (Some unanchored_line) =
     Some \<lparr> timestamp = None, session_id = None, message_type = None, message = None \<rparr>
   \<and> parse_log_data None = None
   \<and> (\<exists>r. parse_log_data (Some unanchored_line) = Some r
        \<and> (timestamp r = None \<longleftrightarrow> \<not> (\<exists>t u. timestamp_shape t \<and> strip unanchored_line = t @ u))
        \<and> (timestamp r = Some [] \<longleftrightarrow> timestamp_shape [] \<and> (\<exists>u. strip unanchored_line = [] @ u))
        \<and> (session_id r = None \<longleftrightarrow> count_list (strip unanchored_line) tab < 1)
        \<and> (message_type r = None \<longleftrightarrow> count_list (strip unanchored_line) tab < 2)
        \<and> (message r = None \<longleftrightarrow> count_list (strip unanchored_line) tab < 3)
        \<and> session_id r = segment (split_on tab (strip unanchored_line)) 1
        \<and> message_type r = segment (split_on tab (strip unanchored_line)) 2
        \<and> message r = segment (split_on tab (strip unanchored_line)) 3)"
  using unanchored_parsed parse_log_data_total[of unanchored_line "[]"] by (rule conjI)

end
